theory Spec2Isabelle
  imports Complex_Main
begin

section \<open>JavaScript numbers\<close>

text \<open>
  The integer quantities of the calculators (wins, losses, draws, rounds, players, points,
  probabilities) come from \<open>parseInt(...) || 0\<close> and integer arithmetic; they are modelled
  as \<open>int\<close> (exact in a double below \<open>2^53\<close>).

  The OMW estimate is a fractional JavaScript number. It is modelled by \<open>jsnum\<close>: the
  three non-finite values are kept apart, a finite double is the real number it denotes.
  Literals denote their decimal value and finite arithmetic is exact (rounding of doubles
  is not modelled).
\<close>

datatype jsnum = NaN | NegInf | PosInf | Fin real

text \<open>\<open>x > c\<close> and \<open>x < c\<close> for a finite constant \<open>c\<close>: every comparison with NaN is false.\<close>

fun js_gt :: "jsnum \<Rightarrow> real \<Rightarrow> bool" where
  "js_gt NaN c = False"
| "js_gt NegInf c = False"
| "js_gt PosInf c = True"
| "js_gt (Fin x) c = (x > c)"

fun js_lt :: "jsnum \<Rightarrow> real \<Rightarrow> bool" where
  "js_lt NaN c = False"
| "js_lt NegInf c = True"
| "js_lt PosInf c = False"
| "js_lt (Fin x) c = (x < c)"

section \<open>Tournament math\<close>

text \<open>\<open>getMatchPoints\<close>, identical in script.js, day2.js and the round-tracker script.\<close>

definition getMatchPoints :: "int \<Rightarrow> int \<Rightarrow> int" where
  "getMatchPoints wins draws = wins * 3 + draws * 1"

subsection \<open>Top 8 estimator of script.js\<close>

definition estimateTop8Probability_script :: "int \<Rightarrow> int \<Rightarrow> int \<Rightarrow> int \<Rightarrow> int \<Rightarrow> int" where
  "estimateTop8Probability_script wins losses draws totalRounds numPlayers =
    (let points = getMatchPoints wins draws in
     if numPlayers \<le> 8 then 100
     else
       let thresholdPoints =
            (if numPlayers \<le> 16 then 9
             else if numPlayers \<le> 32 then 12
             else if numPlayers \<le> 64 then 15
             else if numPlayers \<le> 128 then 16
             else if numPlayers \<le> 256 then 18
             else if numPlayers \<le> 512 then 21
             else if numPlayers \<le> 1024 then 24
             else (totalRounds - 2) * 3);
           diff = points - thresholdPoints
       in if diff \<ge> 6 then 100
          else if diff \<ge> 3 then 98
          else if diff \<ge> 1 then 92
          else if diff = 0 then 75
          else if diff = -1 then 50
          else if diff = -2 then 25
          else if diff = -3 then 10
          else if diff = -4 then 3
          else if diff = -5 then 1
          else 0)"

subsection \<open>Top 8 estimator of the round-tracker script, with the optional OMW estimate\<close>

text \<open>
  \<open>omwEstimate\<close> is \<open>None\<close> when the argument is \<open>undefined\<close> (omitted) or \<open>null\<close>.
\<close>

definition estimateTop8Probability ::
  "int \<Rightarrow> int \<Rightarrow> int \<Rightarrow> int \<Rightarrow> int \<Rightarrow> jsnum option \<Rightarrow> int" where
  "estimateTop8Probability wins losses draws totalRounds numPlayers omwEstimate =
    (let points = getMatchPoints wins draws in
     if numPlayers \<le> 8 then 100
     else
       let thresholdPoints =
            (if numPlayers \<le> 16 then 9
             else if numPlayers \<le> 32 then 12
             else if numPlayers \<le> 64 then 15
             else if numPlayers \<le> 128 then 16
             else if numPlayers \<le> 256 then 18
             else if numPlayers \<le> 512 then 21
             else if numPlayers \<le> 1024 then 24
             else (totalRounds - 2) * 3);
           diff = points - thresholdPoints;
           baseProb =
            (if diff \<ge> 6 then 100
             else if diff \<ge> 3 then 98
             else if diff \<ge> 1 then 92
             else if diff = 0 then 75
             else if diff = -1 then 50
             else if diff = -2 then 25
             else if diff = -3 then 10
             else if diff = -4 then 3
             else if diff = -5 then 1
             else 0)
       in case omwEstimate of
            None \<Rightarrow> baseProb
          | Some omw \<Rightarrow>
              if diff \<ge> -2 \<and> diff \<le> 0 then
                let adjustment =
                     (if js_gt omw 0.55 then
                        (if diff = 0 then 10 else if diff = -1 then 10 else 5)
                      else if js_lt omw 0.40 then
                        (if diff = 0 then -15 else if diff = -1 then -10 else -8)
                      else if js_gt omw 0.50 then
                        (if diff = 0 then 5 else if diff = -1 then 4 else 2)
                      else if js_lt omw 0.45 then
                        (if diff = 0 then -8 else if diff = -1 then -5 else -3)
                      else 0)
                in max 0 (min 100 (baseProb + adjustment))
              else baseProb)"

subsection \<open>The tables as the specification words them\<close>

text \<open>The player-count threshold table (used above 8 players).\<close>

definition threshold_table :: "int \<Rightarrow> int \<Rightarrow> int" where
  "threshold_table numPlayers totalRounds =
    (if numPlayers \<le> 16 then 9
     else if numPlayers \<le> 32 then 12
     else if numPlayers \<le> 64 then 15
     else if numPlayers \<le> 128 then 16
     else if numPlayers \<le> 256 then 18
     else if numPlayers \<le> 512 then 21
     else if numPlayers \<le> 1024 then 24
     else (totalRounds - 2) * 3)"

text \<open>The diff table, first matching row.\<close>

definition diff_table :: "int \<Rightarrow> int" where
  "diff_table diff =
    (if diff \<ge> 6 then 100
     else if diff \<ge> 3 then 98
     else if diff \<ge> 1 then 92
     else if diff = 0 then 75
     else if diff = -1 then 50
     else if diff = -2 then 25
     else if diff = -3 then 10
     else if diff = -4 then 3
     else if diff = -5 then 1
     else 0)"

text \<open>The points difference to the threshold of the tournament size.\<close>

definition points_diff :: "int \<Rightarrow> int \<Rightarrow> int \<Rightarrow> int \<Rightarrow> int" where
  "points_diff wins draws totalRounds numPlayers =
    (wins * 3 + draws) - threshold_table numPlayers totalRounds"

text \<open>
  The adjustment of the estimator for an OMW estimate, and the probability it returns above
  8 players when an estimate is supplied, as functions of the points difference.
\<close>

definition omw_adjustment :: "jsnum \<Rightarrow> int \<Rightarrow> int" where
  "omw_adjustment omw diff =
    (if js_gt omw 0.55 then (if diff = 0 then 10 else if diff = -1 then 10 else 5)
     else if js_lt omw 0.40 then (if diff = 0 then -15 else if diff = -1 then -10 else -8)
     else if js_gt omw 0.50 then (if diff = 0 then 5 else if diff = -1 then 4 else 2)
     else if js_lt omw 0.45 then (if diff = 0 then -8 else if diff = -1 then -5 else -3)
     else 0)"

definition banded_prob :: "jsnum \<Rightarrow> int \<Rightarrow> int" where
  "banded_prob omw diff =
    (if diff \<ge> -2 \<and> diff \<le> 0
     then max 0 (min 100 (diff_table diff + omw_adjustment omw diff))
     else diff_table diff)"

section \<open>Scenario generator\<close>

text \<open>
  \<open>generateScenarios\<close> of day2.js and \<open>generateRemainingScenarios\<close> of script.js and of
  the round-tracker script have the same body: two nested counting-down loops that push
  onto the array \<open>scenarios\<close>. Each loop is a recursive function that carries the array.
\<close>

record scenario =
  extraWins :: int
  extraLosses :: int
  extraDraws :: int

text \<open>The inner loop \<open>for (var d = remaining - w; d >= 0; d--)\<close>, from the current \<open>d\<close>.\<close>

function scenarios_inner :: "int \<Rightarrow> int \<Rightarrow> int \<Rightarrow> scenario list \<Rightarrow> scenario list" where
  "scenarios_inner remaining w d scenarios =
    (if d \<ge> 0 then
       scenarios_inner remaining w (d - 1)
         (scenarios @ [\<lparr>extraWins = w, extraLosses = remaining - w - d, extraDraws = d\<rparr>])
     else scenarios)"
  by pat_completeness auto
termination
  by (relation "measure (\<lambda>(remaining, w, d, scenarios). nat (d + 1))") auto

text \<open>The outer loop \<open>for (var w = remaining; w >= 0; w--)\<close>, from the current \<open>w\<close>.\<close>

function scenarios_outer :: "int \<Rightarrow> int \<Rightarrow> scenario list \<Rightarrow> scenario list" where
  "scenarios_outer remaining w scenarios =
    (if w \<ge> 0 then
       scenarios_outer remaining (w - 1) (scenarios_inner remaining w (remaining - w) scenarios)
     else scenarios)"
  by pat_completeness auto
termination
  by (relation "measure (\<lambda>(remaining, w, scenarios). nat (w + 1))") auto

declare scenarios_inner.simps [simp del] scenarios_outer.simps [simp del]

definition generateScenarios :: "int \<Rightarrow> scenario list" where
  "generateScenarios remaining = scenarios_outer remaining remaining []"

definition generateRemainingScenarios :: "int \<Rightarrow> scenario list" where
  "generateRemainingScenarios remaining = scenarios_outer remaining remaining []"

text \<open>
  The listing order of the specification: more extra wins first, and among equal extra
  wins more extra draws first.
\<close>

definition listed_before :: "scenario \<Rightarrow> scenario \<Rightarrow> bool" where
  "listed_before a b =
    (extraWins a > extraWins b \<or> (extraWins a = extraWins b \<and> extraDraws a > extraDraws b))"


section \<open>OMW estimation\<close>

text \<open>
  A round result is \<open>'W'\<close>, \<open>'L'\<close> or \<open>'D'\<close>; a cell of the array \<open>roundResults\<close>
  holds a result or \<open>null\<close> (\<open>None\<close>).
\<close>

datatype result = Win | Loss | Draw

type_synonym cell = "result option"

text \<open>
  The arithmetic of JavaScript numbers that \<open>estimateOMW\<close> uses. Division of two integers:
  by zero it gives NaN for a zero numerator and an infinity otherwise.
\<close>

definition js_div_int :: "int \<Rightarrow> int \<Rightarrow> jsnum" where
  "js_div_int a b =
    (if b = 0 then (if a = 0 then NaN else if a > 0 then PosInf else NegInf)
     else Fin (real_of_int a / real_of_int b))"

fun js_add :: "jsnum \<Rightarrow> jsnum \<Rightarrow> jsnum" where
  "js_add NaN y = NaN"
| "js_add x NaN = NaN"
| "js_add PosInf NegInf = NaN"
| "js_add NegInf PosInf = NaN"
| "js_add PosInf y = PosInf"
| "js_add x PosInf = PosInf"
| "js_add NegInf y = NegInf"
| "js_add x NegInf = NegInf"
| "js_add (Fin a) (Fin b) = Fin (a + b)"

fun js_sub :: "jsnum \<Rightarrow> jsnum \<Rightarrow> jsnum" where
  "js_sub NaN y = NaN"
| "js_sub x NaN = NaN"
| "js_sub PosInf PosInf = NaN"
| "js_sub NegInf NegInf = NaN"
| "js_sub PosInf y = PosInf"
| "js_sub x NegInf = PosInf"
| "js_sub NegInf y = NegInf"
| "js_sub x PosInf = NegInf"
| "js_sub (Fin a) (Fin b) = Fin (a - b)"

text \<open>\<open>Math.min\<close> and \<open>Math.max\<close> of two numbers: NaN if either is NaN.\<close>

fun js_min :: "jsnum \<Rightarrow> jsnum \<Rightarrow> jsnum" where
  "js_min NaN y = NaN"
| "js_min x NaN = NaN"
| "js_min NegInf y = NegInf"
| "js_min x NegInf = NegInf"
| "js_min PosInf y = y"
| "js_min x PosInf = x"
| "js_min (Fin a) (Fin b) = Fin (min a b)"

fun js_max :: "jsnum \<Rightarrow> jsnum \<Rightarrow> jsnum" where
  "js_max NaN y = NaN"
| "js_max x NaN = NaN"
| "js_max PosInf y = PosInf"
| "js_max x PosInf = PosInf"
| "js_max NegInf y = y"
| "js_max x NegInf = x"
| "js_max (Fin a) (Fin b) = Fin (max a b)"

text \<open>A number divided by an array length.\<close>

fun js_div_count :: "jsnum \<Rightarrow> nat \<Rightarrow> jsnum" where
  "js_div_count NaN n = NaN"
| "js_div_count PosInf n = PosInf"
| "js_div_count NegInf n = NegInf"
| "js_div_count (Fin a) n =
    (if n = 0 then (if a = 0 then NaN else if a > 0 then PosInf else NegInf)
     else Fin (a / real n))"

text \<open>
  The loop of \<open>estimateOMW\<close> over \<open>results\<close>, carrying \<open>cumWins\<close>, \<open>cumLosses\<close> and the
  array \<open>opponentMWs\<close>; it returns the array.
\<close>

fun omw_loop :: "cell list \<Rightarrow> int \<Rightarrow> int \<Rightarrow> int \<Rightarrow> jsnum list \<Rightarrow> jsnum list" where
  "omw_loop [] totalRounds cumWins cumLosses opponentMWs = opponentMWs"
| "omw_loop (None # rest) totalRounds cumWins cumLosses opponentMWs =
     omw_loop rest totalRounds cumWins cumLosses opponentMWs"
| "omw_loop (Some r # rest) totalRounds cumWins cumLosses opponentMWs =
    (let bracketStrength = js_add (Fin 0.5) (js_div_int (cumWins - cumLosses) (2 * totalRounds))
     in case r of
          Win \<Rightarrow>
            (let opponentMW = js_sub bracketStrength (Fin 0.04)
             in omw_loop rest totalRounds (cumWins + 1) cumLosses
                  (opponentMWs @ [js_max (Fin 0.33) (js_min (Fin 1) opponentMW)]))
        | Loss \<Rightarrow>
            (let opponentMW = js_add bracketStrength (Fin 0.04)
             in omw_loop rest totalRounds cumWins (cumLosses + 1)
                  (opponentMWs @ [js_max (Fin 0.33) (js_min (Fin 1) opponentMW)]))
        | Draw \<Rightarrow>
            (let opponentMW = bracketStrength
             in omw_loop rest totalRounds cumWins cumLosses
                  (opponentMWs @ [js_max (Fin 0.33) (js_min (Fin 1) opponentMW)])))"

text \<open>\<open>estimateOMW\<close>; \<open>None\<close> is the returned \<open>null\<close>.\<close>

definition estimateOMW :: "cell list \<Rightarrow> int \<Rightarrow> jsnum option" where
  "estimateOMW results totalRounds =
    (if length results = 0 then None
     else
       let filledResults = filter (\<lambda>r. r \<noteq> None) results in
       if length filledResults = 0 then None
       else
         let opponentMWs = omw_loop results totalRounds 0 0 [];
             sum = foldl js_add (Fin 0) opponentMWs
         in Some (js_div_count sum (length opponentMWs)))"

text \<open>
  The per-round opponent estimates as the specification describes them, before clamping:
  a walk over the played rounds with the running wins and losses, in exact arithmetic.
\<close>

fun round_estimates :: "cell list \<Rightarrow> int \<Rightarrow> int \<Rightarrow> int \<Rightarrow> real list" where
  "round_estimates [] totalRounds cumWins cumLosses = []"
| "round_estimates (None # rest) totalRounds cumWins cumLosses =
     round_estimates rest totalRounds cumWins cumLosses"
| "round_estimates (Some Win # rest) totalRounds cumWins cumLosses =
     (0.5 + real_of_int (cumWins - cumLosses) / real_of_int (2 * totalRounds) - 0.04)
       # round_estimates rest totalRounds (cumWins + 1) cumLosses"
| "round_estimates (Some Loss # rest) totalRounds cumWins cumLosses =
     (0.5 + real_of_int (cumWins - cumLosses) / real_of_int (2 * totalRounds) + 0.04)
       # round_estimates rest totalRounds cumWins (cumLosses + 1)"
| "round_estimates (Some Draw # rest) totalRounds cumWins cumLosses =
     (0.5 + real_of_int (cumWins - cumLosses) / real_of_int (2 * totalRounds))
       # round_estimates rest totalRounds cumWins cumLosses"

definition clamp_omw :: "real \<Rightarrow> real" where
  "clamp_omw x = max 0.33 (min 1 x)"

text \<open>\<open>getRecordFromTracker\<close>: the counts of wins, losses and draws in the array.\<close>

record tally =
  wins :: int
  losses :: int
  draws :: int





section \<open>Strategy verdict of the Top 8 calculators\<close>

text \<open>
  The search \<open>for (var testW = 0; testW <= remaining; testW++)\<close> of \<open>calculate\<close> in the
  round-tracker script, from the current \<open>testW\<close>; the result is \<open>minWinsNeeded\<close>, which
  keeps its initial value -1 when the loop ends without \<open>break\<close>.
\<close>

function minWins_loop ::
  "int \<Rightarrow> int \<Rightarrow> int \<Rightarrow> int \<Rightarrow> int \<Rightarrow> jsnum option \<Rightarrow> int \<Rightarrow> int \<Rightarrow> int" where
  "minWins_loop currentWins currentLosses currentDraws totalRounds numPlayers omwEstimate
      remaining testW =
    (if testW \<le> remaining then
       (let testDraws = remaining - testW;
            testProb = estimateTop8Probability (currentWins + testW) currentLosses
                         (currentDraws + testDraws) totalRounds numPlayers omwEstimate
        in if testProb \<ge> 75 then testW
           else minWins_loop currentWins currentLosses currentDraws totalRounds numPlayers
                  omwEstimate remaining (testW + 1))
     else -1)"
  by pat_completeness auto
termination
  by (relation "measure (\<lambda>(cw, cl, cd, t, n, omw, remaining, testW). nat (remaining + 1 - testW))")
    auto

text \<open>The same search in script.js, whose estimator takes no OMW estimate.\<close>

function minWins_loop_script :: "int \<Rightarrow> int \<Rightarrow> int \<Rightarrow> int \<Rightarrow> int \<Rightarrow> int \<Rightarrow> int \<Rightarrow> int" where
  "minWins_loop_script currentWins currentLosses currentDraws totalRounds numPlayers
      remaining testW =
    (if testW \<le> remaining then
       (let testDraws = remaining - testW;
            testProb = estimateTop8Probability_script (currentWins + testW) currentLosses
                         (currentDraws + testDraws) totalRounds numPlayers
        in if testProb \<ge> 75 then testW
           else minWins_loop_script currentWins currentLosses currentDraws totalRounds numPlayers
                  remaining (testW + 1))
     else -1)"
  by pat_completeness auto
termination
  by (relation "measure (\<lambda>(cw, cl, cd, t, n, remaining, testW). nat (remaining + 1 - testW))")
    auto

declare minWins_loop.simps [simp del] minWins_loop_script.simps [simp del]

text \<open>
  The five verdicts that \<open>calculate\<close> writes into the strategy card, by their text:
  "You can safely draw all ..." (class strategy-draw), "Drawing all remaining rounds gives
  you ... likely enough, but winning would make it safer" (strategy-mixed), "You need to win
  at least N more round(s)" (strategy-play), "Even winning all remaining rounds gives only
  ..." (strategy-must-win), "You need to win your remaining rounds. Drawing is not safe"
  (strategy-play).
\<close>

datatype verdict = SafeToDraw | LikelySafe | WinAtLeast int | EliminationLikely | MustWinDrawUnsafe

text \<open>The alerts with which \<open>calculate\<close> returns early.\<close>

datatype alert = MinimumPlayers | AllRoundsPlayed | NoRoundPlayed | TooManyMatches

text \<open>
  The strategy section of \<open>calculate\<close> in the round-tracker script: the OMW estimate from
  the tracker, the draw-all and win-all probabilities, the search, and the verdict.
\<close>

definition strategy :: "int \<Rightarrow> int \<Rightarrow> int \<Rightarrow> int \<Rightarrow> int \<Rightarrow> cell list \<Rightarrow> verdict" where
  "strategy numPlayers totalRounds currentWins currentLosses currentDraws roundResults =
    (let roundsPlayed = currentWins + currentLosses + currentDraws;
         remaining = totalRounds - roundsPlayed;
         omwEstimate = estimateOMW roundResults totalRounds;
         drawAllFinalW = currentWins;
         drawAllFinalL = currentLosses;
         drawAllFinalD = currentDraws + remaining;
         drawAllProb = estimateTop8Probability drawAllFinalW drawAllFinalL drawAllFinalD
                         totalRounds numPlayers omwEstimate;
         winAllFinalW = currentWins + remaining;
         winAllFinalL = currentLosses;
         winAllFinalD = currentDraws;
         winAllProb = estimateTop8Probability winAllFinalW winAllFinalL winAllFinalD
                        totalRounds numPlayers omwEstimate;
         minWinsNeeded = minWins_loop currentWins currentLosses currentDraws totalRounds
                           numPlayers omwEstimate remaining 0
     in if drawAllProb \<ge> 90 then SafeToDraw
        else if drawAllProb \<ge> 60 then LikelySafe
        else if minWinsNeeded > 0 \<and> minWinsNeeded \<le> remaining then WinAtLeast minWinsNeeded
        else if winAllProb < 25 then EliminationLikely
        else MustWinDrawUnsafe)"

definition strategy_script :: "int \<Rightarrow> int \<Rightarrow> int \<Rightarrow> int \<Rightarrow> int \<Rightarrow> verdict" where
  "strategy_script numPlayers totalRounds currentWins currentLosses currentDraws =
    (let roundsPlayed = currentWins + currentLosses + currentDraws;
         remaining = totalRounds - roundsPlayed;
         drawAllFinalW = currentWins;
         drawAllFinalL = currentLosses;
         drawAllFinalD = currentDraws + remaining;
         drawAllProb = estimateTop8Probability_script drawAllFinalW drawAllFinalL drawAllFinalD
                         totalRounds numPlayers;
         winAllFinalW = currentWins + remaining;
         winAllFinalL = currentLosses;
         winAllFinalD = currentDraws;
         winAllProb = estimateTop8Probability_script winAllFinalW winAllFinalL winAllFinalD
                        totalRounds numPlayers;
         minWinsNeeded = minWins_loop_script currentWins currentLosses currentDraws totalRounds
                           numPlayers remaining 0
     in if drawAllProb \<ge> 90 then SafeToDraw
        else if drawAllProb \<ge> 60 then LikelySafe
        else if minWinsNeeded > 0 \<and> minWinsNeeded \<le> remaining then WinAtLeast minWinsNeeded
        else if winAllProb < 25 then EliminationLikely
        else MustWinDrawUnsafe)"

text \<open>
  \<open>calculate\<close>, as far as the strategy verdict goes: the input checks and, in progress
  mode, the strategy section (\<open>Inr None\<close>: no strategy card). \<open>totalRounds\<close> stands for
  \<open>getRounds(numPlayers)\<close>, which the source computes with \<open>Math.log2\<close>; \<open>roundResults\<close> is
  the tracker array (read by the round-tracker script only).
\<close>

definition calculate ::
  "int \<Rightarrow> int \<Rightarrow> int \<Rightarrow> int \<Rightarrow> int \<Rightarrow> bool \<Rightarrow> cell list \<Rightarrow> alert + verdict option" where
  "calculate numPlayers totalRounds currentWins currentLosses currentDraws isInProgress
      roundResults =
    (if numPlayers < 8 then Inl MinimumPlayers
     else
       let roundsPlayed = currentWins + currentLosses + currentDraws in
       if isInProgress then
         (if roundsPlayed \<ge> totalRounds then Inl AllRoundsPlayed
          else if roundsPlayed = 0 then Inl NoRoundPlayed
          else Inr (Some (strategy numPlayers totalRounds currentWins currentLosses
                            currentDraws roundResults)))
       else
         (if roundsPlayed > totalRounds then Inl TooManyMatches
          else Inr None))"

definition calculate_script ::
  "int \<Rightarrow> int \<Rightarrow> int \<Rightarrow> int \<Rightarrow> int \<Rightarrow> bool \<Rightarrow> alert + verdict option" where
  "calculate_script numPlayers totalRounds currentWins currentLosses currentDraws isInProgress =
    (if numPlayers < 8 then Inl MinimumPlayers
     else
       let roundsPlayed = currentWins + currentLosses + currentDraws in
       if isInProgress then
         (if roundsPlayed \<ge> totalRounds then Inl AllRoundsPlayed
          else if roundsPlayed = 0 then Inl NoRoundPlayed
          else Inr (Some (strategy_script numPlayers totalRounds currentWins currentLosses
                            currentDraws)))
       else
         (if roundsPlayed > totalRounds then Inl TooManyMatches
          else Inr None))"

text \<open>
  The verdict cascade of the specification, first match wins, and its notion of
  \<open>minWinsNeeded\<close>: the smallest \<open>w\<close> from 0 to \<open>remaining\<close> that is good enough, or -1 if
  there is none.
\<close>

definition verdict_cascade :: "int \<Rightarrow> int \<Rightarrow> int \<Rightarrow> int \<Rightarrow> verdict" where
  "verdict_cascade drawAllProb winAllProb minWinsNeeded remaining =
    (if drawAllProb \<ge> 90 then SafeToDraw
     else if drawAllProb \<ge> 60 then LikelySafe
     else if 0 < minWinsNeeded \<and> minWinsNeeded \<le> remaining then WinAtLeast minWinsNeeded
     else if winAllProb < 25 then EliminationLikely
     else MustWinDrawUnsafe)"

definition is_min_wins :: "(int \<Rightarrow> bool) \<Rightarrow> int \<Rightarrow> int \<Rightarrow> bool" where
  "is_min_wins enough remaining m =
    (if list_ex enough [0..remaining]
     then 0 \<le> m \<and> m \<le> remaining \<and> enough m \<and> list_all (\<lambda>w. \<not> enough w) [0..m - 1]
     else m = -1)"

text \<open>An ascending search for the first good value from \<open>k\<close> to \<open>r\<close>, -1 if none.\<close>

function first_from :: "(int \<Rightarrow> bool) \<Rightarrow> int \<Rightarrow> int \<Rightarrow> int" where
  "first_from enough r k =
    (if k \<le> r then (if enough k then k else first_from enough r (k + 1)) else -1)"
  by pat_completeness auto
termination
  by (relation "measure (\<lambda>(enough, r, k). nat (r + 1 - k))") auto

declare first_from.simps [simp del]

section \<open>Day 2 calculator\<close>

text \<open>
  The search of \<open>calculate\<close> in day2.js for the minimum number of wins, from the current
  \<open>testW\<close>; the companion variable \<open>drawsWithMinWins\<close> is not read by the search and is
  left out.
\<close>

function day2_loop :: "int \<Rightarrow> int \<Rightarrow> int \<Rightarrow> int \<Rightarrow> int" where
  "day2_loop currentPoints threshold remaining testW =
    (if testW \<le> remaining then
       (let testPts = currentPoints + testW * 3 + (remaining - testW) * 1
        in if testPts \<ge> threshold then testW
           else day2_loop currentPoints threshold remaining (testW + 1))
     else -1)"
  by pat_completeness auto
termination
  by (relation "measure (\<lambda>(p, t, remaining, testW). nat (remaining + 1 - testW))") auto

declare day2_loop.simps [simp del]

text \<open>
  \<open>minWinsNeeded\<close> as \<open>calculate\<close> of day2.js computes it from the record: it stays -1
  when the player is already in.
\<close>

definition day2_minWinsNeeded :: "int \<Rightarrow> int \<Rightarrow> int \<Rightarrow> int \<Rightarrow> int \<Rightarrow> int" where
  "day2_minWinsNeeded totalRounds threshold currentWins currentLosses currentDraws =
    (let currentPoints = getMatchPoints currentWins currentDraws;
         roundsPlayed = currentWins + currentLosses + currentDraws;
         remaining = totalRounds - roundsPlayed;
         alreadyIn = (currentPoints \<ge> threshold)
     in if \<not> alreadyIn then day2_loop currentPoints threshold remaining 0 else -1)"


section \<open>Round tracker\<close>

text \<open>
  The state of the tracker is the array \<open>roundResults\<close>. \<open>buildRoundTracker\<close> resizes it
  to the round count before rebuilding the rows: it pushes \<open>null\<close> while the array is too
  short and pops while it is too long. The two \<open>while\<close> loops:
\<close>

function push_loop :: "nat \<Rightarrow> cell list \<Rightarrow> cell list" where
  "push_loop totalRounds roundResults =
    (if length roundResults < totalRounds then push_loop totalRounds (roundResults @ [None])
     else roundResults)"
  by pat_completeness auto
termination
  by (relation "measure (\<lambda>(totalRounds, roundResults). totalRounds - length roundResults)") auto

function pop_loop :: "nat \<Rightarrow> cell list \<Rightarrow> cell list" where
  "pop_loop totalRounds roundResults =
    (if length roundResults > totalRounds then pop_loop totalRounds (butlast roundResults)
     else roundResults)"
  by pat_completeness auto
termination
  by (relation "measure (\<lambda>(totalRounds, roundResults). length roundResults)") auto

declare push_loop.simps [simp del] pop_loop.simps [simp del]

text \<open>
  The effect of \<open>buildRoundTracker\<close> on the array (the rows it builds are presentation).
  \<open>players\<close> is the parsed players input and \<open>totalRounds\<close> stands for
  \<open>getRounds(players)\<close>.
\<close>

definition buildRoundTracker :: "int \<Rightarrow> nat \<Rightarrow> cell list \<Rightarrow> cell list" where
  "buildRoundTracker players totalRounds roundResults =
    (if players < 2 then roundResults
     else pop_loop totalRounds (push_loop totalRounds roundResults))"

text \<open>
  Whether \<open>buildRoundTracker\<close> marks row \<open>r\<close> as enabled; a row that is not enabled gets
  the class \<open>round-disabled\<close>, its buttons keep their click handlers.
\<close>

definition round_enabled :: "nat \<Rightarrow> cell list \<Rightarrow> bool" where
  "round_enabled r roundResults =
    (r = 0 \<or> roundResults ! (r - 1) \<noteq> None \<or> roundResults ! r \<noteq> None)"

text \<open>
  \<open>onRoundBtnClick\<close> for the button of row \<open>roundIdx\<close> (the source's \<open>round\<close>) with
  result \<open>result\<close>. The rows are
  built for the indices below the array length, so the handler is modelled for those
  indices; for any other index JavaScript would grow the array with holes, which a
  \<open>cell\<close> cannot represent, and the model returns \<open>None\<close>.
\<close>

definition onRoundBtnClick ::
  "int \<Rightarrow> nat \<Rightarrow> nat \<Rightarrow> result \<Rightarrow> cell list \<Rightarrow> cell list option" where
  "onRoundBtnClick players totalRounds roundIdx result roundResults =
    (if roundIdx < length roundResults
     then Some (buildRoundTracker players totalRounds (roundResults[roundIdx := Some result]))
     else None)"

text \<open>The loop of \<open>onRoundClear\<close>, from the current \<open>i\<close>.\<close>

function clear_loop :: "nat \<Rightarrow> cell list \<Rightarrow> cell list" where
  "clear_loop i roundResults =
    (if i < length roundResults then clear_loop (i + 1) (roundResults[i := None])
     else roundResults)"
  by pat_completeness auto
termination
  by (relation "measure (\<lambda>(i, roundResults). length roundResults - i)") auto

declare clear_loop.simps [simp del]

definition onRoundClear :: "int \<Rightarrow> nat \<Rightarrow> nat \<Rightarrow> cell list \<Rightarrow> cell list" where
  "onRoundClear players totalRounds roundIdx roundResults =
    buildRoundTracker players totalRounds (clear_loop roundIdx roundResults)"

text \<open>
  The played results form a contiguous prefix: after the leading played cells only
  \<open>null\<close> cells follow.
\<close>

definition played_prefix :: "cell list \<Rightarrow> bool" where
  "played_prefix roundResults =
    list_all (\<lambda>c. c = None) (dropWhile (\<lambda>c. c \<noteq> None) roundResults)"


section \<open>Properties of the Top 8 estimator\<close>

lemma estimate_no_omw:
  "estimateTop8Probability w l d totalRounds numPlayers None =
     (if numPlayers \<le> 8 then 100
      else diff_table (points_diff w d totalRounds numPlayers))"
  unfolding estimateTop8Probability_def getMatchPoints_def Let_def
      diff_table_def points_diff_def threshold_table_def
  by (simp only: option.case mult_1_right)

lemma estimate_script_tables:
  "estimateTop8Probability_script w l d totalRounds numPlayers =
     (if numPlayers \<le> 8 then 100
      else diff_table (points_diff w d totalRounds numPlayers))"
  unfolding estimateTop8Probability_script_def getMatchPoints_def Let_def
      diff_table_def points_diff_def threshold_table_def
  by (simp only: mult_1_right)

lemma estimate_with_omw:
  "estimateTop8Probability w l d totalRounds numPlayers (Some omw) =
     (if numPlayers \<le> 8 then 100
      else banded_prob omw (points_diff w d totalRounds numPlayers))"
  unfolding estimateTop8Probability_def getMatchPoints_def Let_def banded_prob_def
      diff_table_def points_diff_def threshold_table_def omw_adjustment_def
  by (simp only: option.case mult_1_right)

lemma diff_table_mono: "a \<le> b \<Longrightarrow> diff_table a \<le> diff_table b"
  unfolding diff_table_def by simp

lemma omw_adjustment_bounds: "-15 \<le> omw_adjustment omw diff \<and> omw_adjustment omw diff \<le> 10"
  unfolding omw_adjustment_def by simp

lemma banded_prob_outside:
  "diff < -2 \<or> 0 < diff \<Longrightarrow> banded_prob omw diff = diff_table diff"
  unfolding banded_prob_def by auto

lemma banded_prob_three_more: "banded_prob omw diff \<le> banded_prob omw (diff + 3)"
proof -
  have adj: "-15 \<le> omw_adjustment omw k" "omw_adjustment omw k \<le> 10" for k
    using omw_adjustment_bounds [of omw k] by simp_all
  consider (low) "diff \<le> -6" | (m5) "diff = -5" | (m4) "diff = -4" | (m3) "diff = -3"
    | (m2) "diff = -2" | (m1) "diff = -1" | (z) "diff = 0" | (high) "1 \<le> diff"
    by linarith
  then show ?thesis
  proof cases
    case low
    then have "banded_prob omw diff = diff_table diff"
      "banded_prob omw (diff + 3) = diff_table (diff + 3)"
      by (simp_all add: banded_prob_outside)
    then show ?thesis using diff_table_mono [of diff "diff + 3"] by simp
  next
    case m5
    then show ?thesis using adj [of "-2"] by (simp add: banded_prob_def diff_table_def)
  next
    case m4
    then show ?thesis using adj [of "-1"] by (simp add: banded_prob_def diff_table_def)
  next
    case m3
    then show ?thesis using adj [of 0] by (simp add: banded_prob_def diff_table_def)
  next
    case m2
    then show ?thesis using adj [of "-2"] by (simp add: banded_prob_def diff_table_def)
  next
    case m1
    then show ?thesis using adj [of "-1"] by (simp add: banded_prob_def diff_table_def)
  next
    case z
    then show ?thesis using adj [of 0] by (simp add: banded_prob_def diff_table_def)
  next
    case high
    then have "banded_prob omw diff = diff_table diff"
      "banded_prob omw (diff + 3) = diff_table (diff + 3)"
      by (simp_all add: banded_prob_outside)
    then show ?thesis using diff_table_mono [of diff "diff + 3"] by simp
  qed
qed

lemma points_diff_one_more_win:
  "points_diff (w + 1) d totalRounds numPlayers =
   points_diff w d totalRounds numPlayers + 3"
  by (simp add: points_diff_def)

text \<open>
  C1. With no OMW estimate, the estimator (both copies) returns 100 for at most 8 players
  whatever the record, and otherwise the diff table applied to
  \<open>(wins*3 + draws) - threshold\<close>, the threshold read from the player-count table.
\<close>

theorem top8_probability_tables:
  "estimateTop8Probability w l d totalRounds numPlayers None =
     (if numPlayers \<le> 8 then 100
      else diff_table ((w * 3 + d) - threshold_table numPlayers totalRounds))
   \<and> estimateTop8Probability_script w l d totalRounds numPlayers =
     (if numPlayers \<le> 8 then 100
      else diff_table ((w * 3 + d) - threshold_table numPlayers totalRounds))"
  using estimate_no_omw [of w l d totalRounds numPlayers]
    estimate_script_tables [of w l d totalRounds numPlayers]
  by (simp add: points_diff_def)

text \<open>
  C10. On the path without an OMW estimate the estimator of script.js and the estimator
  of the round-tracker script return the same probability.
\<close>

theorem top8_copies_agree:
  "estimateTop8Probability_script w l d totalRounds numPlayers =
   estimateTop8Probability w l d totalRounds numPlayers None"
  by (simp add: estimate_no_omw estimate_script_tables)

text \<open>
  C3. When the points difference is outside the band from -2 to 0, any OMW estimate
  (finite, infinite or NaN) leaves the probability as it is without an estimate.
\<close>

theorem omw_ignored_outside_band:
  assumes "points_diff w d totalRounds numPlayers < -2
         \<or> points_diff w d totalRounds numPlayers > 0"
  shows "estimateTop8Probability w l d totalRounds numPlayers (Some omw) =
         estimateTop8Probability w l d totalRounds numPlayers None"
  using assms by (simp add: estimate_no_omw estimate_with_omw banded_prob_outside)

theorem omw_ignored_outside_band_witness:
  "(points_diff 5 0 5 32 < -2 \<or> points_diff 5 0 5 32 > 0)
   \<and> estimateTop8Probability 5 0 0 5 32 (Some PosInf) = 98
   \<and> estimateTop8Probability 5 0 0 5 32 None = 98
   \<and> points_diff 1 1 5 32 < -2
   \<and> estimateTop8Probability 1 3 1 5 32 (Some (Fin 0.33)) = 0
   \<and> estimateTop8Probability 1 3 1 5 32 None = 0"
  using omw_ignored_outside_band [of 5 0 5 32 0 PosInf]
    omw_ignored_outside_band [of 1 1 5 32 3 "Fin 0.33"]
  by (simp add: points_diff_def threshold_table_def estimate_no_omw diff_table_def)

text \<open>
  C7. For fixed losses, draws, rounds, players and OMW estimate (supplied or absent), one
  more win never lowers the probability, in either copy of the estimator.
\<close>

theorem top8_monotone_in_wins:
  "estimateTop8Probability w l d totalRounds numPlayers omw
     \<le> estimateTop8Probability (w + 1) l d totalRounds numPlayers omw
   \<and> estimateTop8Probability_script w l d totalRounds numPlayers
     \<le> estimateTop8Probability_script (w + 1) l d totalRounds numPlayers"
proof (cases omw)
  case None
  then show ?thesis
    by (simp add: estimate_no_omw estimate_script_tables points_diff_one_more_win
        diff_table_mono)
next
  case (Some x)
  then show ?thesis
    by (simp add: estimate_with_omw estimate_script_tables points_diff_one_more_win
        diff_table_mono banded_prob_three_more)
qed

section \<open>Properties of the scenario generator\<close>

lemma inner_closed:
  "scenarios_inner r w d acc =
     acc @ map (\<lambda>k. \<lparr>extraWins = w, extraLosses = r - w - k, extraDraws = k\<rparr>) (rev [0..d])"
proof (induction r w d acc rule: scenarios_inner.induct)
  case (1 r w d acc)
  show ?case
  proof (cases "0 \<le> d")
    case True
    then have "rev [0..d] = d # rev [0..d - 1]" by (simp add: upto_rec2)
    with True 1 show ?thesis by (subst scenarios_inner.simps) simp
  next
    case False
    then show ?thesis by (subst scenarios_inner.simps) simp
  qed
qed

lemma outer_closed:
  "scenarios_outer r w acc =
     acc @ concat (map (\<lambda>j. map (\<lambda>k. \<lparr>extraWins = j, extraLosses = r - j - k, extraDraws = k\<rparr>)
                                (rev [0..r - j])) (rev [0..w]))"
proof (induction r w acc rule: scenarios_outer.induct)
  case (1 r w acc)
  show ?case
  proof (cases "0 \<le> w")
    case True
    then have "rev [0..w] = w # rev [0..w - 1]" by (simp add: upto_rec2)
    with True 1 show ?thesis by (subst scenarios_outer.simps) (simp add: inner_closed)
  next
    case False
    then show ?thesis by (subst scenarios_outer.simps) simp
  qed
qed

lemma inner_length: "-1 \<le> d \<Longrightarrow> int (length (scenarios_inner r w d acc)) = int (length acc) + d + 1"
  by (simp add: inner_closed)

lemma outer_length:
  "-1 \<le> w \<Longrightarrow> w \<le> r \<Longrightarrow>
   2 * int (length (scenarios_outer r w acc)) = 2 * int (length acc) + (w + 1) * (2 * r + 2 - w)"
proof (induction r w acc rule: scenarios_outer.induct)
  case (1 r w acc)
  show ?case
  proof (cases "0 \<le> w")
    case True
    with 1 have "2 * int (length (scenarios_outer r (w - 1) (scenarios_inner r w (r - w) acc)))
       = 2 * int (length (scenarios_inner r w (r - w) acc)) + (w - 1 + 1) * (2 * r + 2 - (w - 1))"
      by simp
    also have "int (length (scenarios_inner r w (r - w) acc)) = int (length acc) + (r - w) + 1"
      using 1 by (simp add: inner_length)
    finally show ?thesis using True
      by (subst scenarios_outer.simps) (simp add: algebra_simps)
  next
    case False
    with 1 have "w = -1" by simp
    then show ?thesis by (subst scenarios_outer.simps) simp
  qed
qed

lemma mem_generate:
  "s \<in> set (scenarios_outer r r []) \<longleftrightarrow>
     (0 \<le> extraWins s \<and> 0 \<le> extraLosses s \<and> 0 \<le> extraDraws s
      \<and> extraWins s + extraLosses s + extraDraws s = r)"
proof
  assume "s \<in> set (scenarios_outer r r [])"
  then show "0 \<le> extraWins s \<and> 0 \<le> extraLosses s \<and> 0 \<le> extraDraws s
      \<and> extraWins s + extraLosses s + extraDraws s = r"
    by (auto simp add: outer_closed)
next
  assume a: "0 \<le> extraWins s \<and> 0 \<le> extraLosses s \<and> 0 \<le> extraDraws s
      \<and> extraWins s + extraLosses s + extraDraws s = r"
  obtain w l d where s: "s = \<lparr>extraWins = w, extraLosses = l, extraDraws = d\<rparr>"
    by (cases s) auto
  with a have l: "l = r - w - d" and w: "w \<in> {0..r}" and d: "d \<in> {0..r - w}" by auto
  have "\<lparr>extraWins = w, extraLosses = r - w - d, extraDraws = d\<rparr>
        \<in> (\<lambda>k. \<lparr>extraWins = w, extraLosses = r - w - k, extraDraws = k\<rparr>) ` {0..r - w}"
    using d by (rule imageI)
  with w show "s \<in> set (scenarios_outer r r [])"
    unfolding s l outer_closed by (simp del: atLeastAtMost_iff) (rule bexI)
qed

lemma sorted_wrt_irrefl_distinct':
  "(\<And>x. \<not> R x x) \<Longrightarrow> sorted_wrt R xs \<Longrightarrow> distinct xs"
  by (induction xs) auto

lemma inner_sorted:
  "sorted_wrt listed_before acc \<Longrightarrow>
   (\<forall>s \<in> set acc. extraWins s > w \<or> (extraWins s = w \<and> extraDraws s > d)) \<Longrightarrow>
   sorted_wrt listed_before (scenarios_inner r w d acc)"
proof (induction r w d acc rule: scenarios_inner.induct)
  case (1 r w d acc)
  show ?case
  proof (cases "0 \<le> d")
    case True
    have "\<forall>s\<in>set acc. listed_before s \<lparr>extraWins = w, extraLosses = r - w - d, extraDraws = d\<rparr>"
      using 1(3) by (auto simp add: listed_before_def)
    then have "sorted_wrt listed_before (acc @ [\<lparr>extraWins = w, extraLosses = r - w - d, extraDraws = d\<rparr>])"
      using 1(2) by (simp add: sorted_wrt_append)
    moreover have "\<forall>s\<in>set (acc @ [\<lparr>extraWins = w, extraLosses = r - w - d, extraDraws = d\<rparr>]).
        extraWins s > w \<or> (extraWins s = w \<and> extraDraws s > d - 1)"
      using 1(3) by auto
    ultimately show ?thesis using True 1(1) by (subst scenarios_inner.simps) simp
  next
    case False
    with 1 show ?thesis by (subst scenarios_inner.simps) simp
  qed
qed

lemma inner_wins:
  "\<forall>s \<in> set acc. extraWins s \<ge> w \<Longrightarrow> \<forall>s \<in> set (scenarios_inner r w d acc). extraWins s \<ge> w"
  by (auto simp add: inner_closed)

lemma outer_sorted:
  "sorted_wrt listed_before acc \<Longrightarrow> (\<forall>s \<in> set acc. extraWins s > w) \<Longrightarrow>
   sorted_wrt listed_before (scenarios_outer r w acc)"
proof (induction r w acc rule: scenarios_outer.induct)
  case (1 r w acc)
  show ?case
  proof (cases "0 \<le> w")
    case True
    have a: "sorted_wrt listed_before (scenarios_inner r w (r - w) acc)"
      using 1(2,3) by (intro inner_sorted) auto
    have b: "\<forall>s \<in> set (scenarios_inner r w (r - w) acc). extraWins s > w - 1"
      using inner_wins [of acc w r "r - w"] 1(3) by force
    show ?thesis using True 1(1) a b by (subst scenarios_outer.simps) simp
  next
    case False
    with 1 show ?thesis by (subst scenarios_outer.simps) simp
  qed
qed

lemma generate_length:
  assumes "0 \<le> r" shows "int (length (scenarios_outer r r [])) = (r + 1) * (r + 2) div 2"
proof -
  have "2 * int (length (scenarios_outer r r [])) = (r + 1) * (r + 2)"
    using outer_length [of r r "[]"] assms by (simp add: algebra_simps)
  then show ?thesis by simp
qed

text \<open>
  C2. For a non-negative number of remaining rounds the generator (all copies) returns
  exactly \<open>(remaining+1)(remaining+2)/2\<close> triples; each sums to \<open>remaining\<close> with
  non-negative components; none occurs twice; and they are listed with extra wins
  descending from \<open>remaining\<close> to 0 and, among equal extra wins, extra draws descending.
\<close>

theorem scenario_enumeration:
  assumes "0 \<le> remaining"
  shows "int (length (generateScenarios remaining)) = (remaining + 1) * (remaining + 2) div 2
    \<and> (\<forall>s \<in> set (generateScenarios remaining).
           extraWins s + extraLosses s + extraDraws s = remaining
           \<and> 0 \<le> extraWins s \<and> 0 \<le> extraLosses s \<and> 0 \<le> extraDraws s)
    \<and> distinct (generateScenarios remaining)
    \<and> sorted_wrt listed_before (generateScenarios remaining)
    \<and> generateScenarios remaining =
        concat (map (\<lambda>w. map (\<lambda>d. \<lparr>extraWins = w, extraLosses = remaining - w - d,
                                      extraDraws = d\<rparr>)
                              (rev [0..remaining - w]))
                    (rev [0..remaining]))
    \<and> generateRemainingScenarios remaining = generateScenarios remaining"
proof -
  have len: "int (length (generateScenarios remaining)) = (remaining + 1) * (remaining + 2) div 2"
    using assms by (simp add: generateScenarios_def generate_length)
  have elems: "\<forall>s \<in> set (generateScenarios remaining).
           extraWins s + extraLosses s + extraDraws s = remaining
           \<and> 0 \<le> extraWins s \<and> 0 \<le> extraLosses s \<and> 0 \<le> extraDraws s"
    unfolding generateScenarios_def by (auto simp add: mem_generate)
  have srt: "sorted_wrt listed_before (generateScenarios remaining)"
    unfolding generateScenarios_def by (rule outer_sorted) simp_all
  have dist: "distinct (generateScenarios remaining)"
    using srt by (rule sorted_wrt_irrefl_distinct' [rotated]) (simp add: listed_before_def)
  have closed: "generateScenarios remaining =
        concat (map (\<lambda>w. map (\<lambda>d. \<lparr>extraWins = w, extraLosses = remaining - w - d,
                                      extraDraws = d\<rparr>)
                              (rev [0..remaining - w]))
                    (rev [0..remaining]))"
    by (simp add: generateScenarios_def outer_closed)
  have same: "generateRemainingScenarios remaining = generateScenarios remaining"
    by (simp add: generateScenarios_def generateRemainingScenarios_def)
  from len elems dist srt closed same show ?thesis by blast
qed

theorem scenario_enumeration_witness:
  "(0::int) \<le> 2
   \<and> length (generateScenarios 2) = 6
   \<and> generateRemainingScenarios 2 =
      [\<lparr>extraWins = 2, extraLosses = 0, extraDraws = 0\<rparr>,
       \<lparr>extraWins = 1, extraLosses = 0, extraDraws = 1\<rparr>,
       \<lparr>extraWins = 1, extraLosses = 1, extraDraws = 0\<rparr>,
       \<lparr>extraWins = 0, extraLosses = 0, extraDraws = 2\<rparr>,
       \<lparr>extraWins = 0, extraLosses = 1, extraDraws = 1\<rparr>,
       \<lparr>extraWins = 0, extraLosses = 2, extraDraws = 0\<rparr>]
   \<and> distinct (generateScenarios 2)
   \<and> sorted_wrt listed_before (generateRemainingScenarios 2)"
proof -
  have h: "(0::int) \<le> 2" by simp
  have "generateScenarios 2 =
      [\<lparr>extraWins = 2, extraLosses = 0, extraDraws = 0\<rparr>,
       \<lparr>extraWins = 1, extraLosses = 0, extraDraws = 1\<rparr>,
       \<lparr>extraWins = 1, extraLosses = 1, extraDraws = 0\<rparr>,
       \<lparr>extraWins = 0, extraLosses = 0, extraDraws = 2\<rparr>,
       \<lparr>extraWins = 0, extraLosses = 1, extraDraws = 1\<rparr>,
       \<lparr>extraWins = 0, extraLosses = 2, extraDraws = 0\<rparr>]"
    by (simp add: generateScenarios_def scenarios_outer.simps scenarios_inner.simps)
  note ev = this
  from scenario_enumeration [OF h]
  have len: "int (length (generateScenarios 2)) = (2 + 1) * (2 + 2) div 2"
    and dist: "distinct (generateScenarios 2)"
    and srt: "sorted_wrt listed_before (generateScenarios 2)"
    and same: "generateRemainingScenarios 2 = generateScenarios 2"
    by blast+
  from len have "length (generateScenarios 2) = 6" by simp
  with dist srt same ev h show ?thesis by (simp only: simp_thms)
qed

section \<open>Properties of the OMW estimate\<close>

lemma omw_loop_walk:
  "totalRounds \<noteq> 0 \<Longrightarrow>
   omw_loop results totalRounds cw cl acc =
   acc @ map (\<lambda>x. Fin (clamp_omw x)) (round_estimates results totalRounds cw cl)"
proof (induction results arbitrary: cw cl acc)
  case Nil
  show ?case by simp
next
  case (Cons c rest)
  show ?case
  proof (cases c)
    case None
    with Cons show ?thesis by simp
  next
    case (Some r)
    with Cons show ?thesis
      by (cases r) (simp_all add: js_div_int_def clamp_omw_def)
  qed
qed

lemma foldl_js_add_finite:
  "foldl js_add (Fin s) (map (\<lambda>x. Fin (f x)) xs) = Fin (s + sum_list (map f xs))"
  by (induction xs arbitrary: s) (simp_all add: add.assoc)

lemma length_round_estimates:
  "length (round_estimates results totalRounds cw cl) = length (filter (\<lambda>r. r \<noteq> None) results)"
  by (induction results totalRounds cw cl rule: round_estimates.induct) simp_all

lemma clamp_omw_range: "0.33 \<le> clamp_omw x \<and> clamp_omw x \<le> 1"
  by (simp add: clamp_omw_def)

lemma sum_list_between:
  fixes xs :: "real list"
  assumes "\<forall>x \<in> set xs. a \<le> x \<and> x \<le> b"
  shows "real (length xs) * a \<le> sum_list xs \<and> sum_list xs \<le> real (length xs) * b"
  using assms by (induction xs) (auto simp add: algebra_simps)

lemma mean_between:
  fixes xs :: "real list"
  assumes "xs \<noteq> []" and "\<forall>x \<in> set xs. a \<le> x \<and> x \<le> b"
  shows "a \<le> sum_list xs / real (length xs) \<and> sum_list xs / real (length xs) \<le> b"
proof -
  have n: "0 < real (length xs)" using assms(1) by simp
  from sum_list_between [OF assms(2)] n show ?thesis
    by (simp add: pos_le_divide_eq pos_divide_le_eq mult.commute)
qed

lemma estimateOMW_unplayed:
  "\<forall>c \<in> set results. c = None \<Longrightarrow> estimateOMW results totalRounds = None"
proof -
  assume "\<forall>c \<in> set results. c = None"
  then have "filter (\<lambda>r. r \<noteq> None) results = []" by (simp add: filter_empty_conv)
  then show ?thesis by (simp add: estimateOMW_def Let_def)
qed

lemma estimateOMW_played:
  assumes "totalRounds \<noteq> 0" and "\<exists>c \<in> set results. c \<noteq> None"
  shows "estimateOMW results totalRounds =
    Some (Fin (sum_list (map clamp_omw (round_estimates results totalRounds 0 0))
               / real (length (round_estimates results totalRounds 0 0))))"
    and "round_estimates results totalRounds 0 0 \<noteq> []"
proof -
  from assms(2) have f: "filter (\<lambda>r. r \<noteq> None) results \<noteq> []"
    by (simp add: filter_empty_conv)
  then have r: "results \<noteq> []" by auto
  from f show ne: "round_estimates results totalRounds 0 0 \<noteq> []"
    using length_round_estimates [of results totalRounds 0 0] by auto
  have loop: "omw_loop results totalRounds 0 0 [] =
      map (\<lambda>x. Fin (clamp_omw x)) (round_estimates results totalRounds 0 0)"
    using omw_loop_walk [OF assms(1), of results 0 0 "[]"] by simp
  show "estimateOMW results totalRounds =
    Some (Fin (sum_list (map clamp_omw (round_estimates results totalRounds 0 0))
               / real (length (round_estimates results totalRounds 0 0))))"
    using f r ne by (simp add: estimateOMW_def Let_def loop foldl_js_add_finite)
qed

text \<open>
  Without a round count the first played round divides zero by zero: the estimate is NaN.
\<close>

lemma estimateOMW_zero_rounds_example: "estimateOMW [Some Win] 0 = Some NaN"
  by (simp add: estimateOMW_def js_div_int_def)

text \<open>
  C6. On an empty or all-unplayed sequence \<open>estimateOMW\<close> returns null. On a sequence
  with a played round (and a non-zero round count) it returns a finite number between
  0.33 and 1: the arithmetic mean of the per-round opponent estimates, each clamped to
  that interval.
\<close>

theorem estimateOMW_null_or_mean:
  "((\<forall>c \<in> set results. c = None) \<longrightarrow> estimateOMW results totalRounds = None)
   \<and> ((\<exists>c \<in> set results. c \<noteq> None) \<and> totalRounds \<noteq> 0 \<longrightarrow>
       (\<exists>x. estimateOMW results totalRounds = Some (Fin x)
            \<and> 0.33 \<le> x \<and> x \<le> 1
            \<and> x = sum_list (map clamp_omw (round_estimates results totalRounds 0 0))
                    / real (length (round_estimates results totalRounds 0 0))))"
proof (intro conjI impI)
  assume "\<forall>c \<in> set results. c = None"
  then show "estimateOMW results totalRounds = None" by (rule estimateOMW_unplayed)
next
  assume a: "(\<exists>c \<in> set results. c \<noteq> None) \<and> totalRounds \<noteq> 0"
  let ?es = "map clamp_omw (round_estimates results totalRounds 0 0)"
  from a have eq: "estimateOMW results totalRounds =
      Some (Fin (sum_list ?es / real (length (round_estimates results totalRounds 0 0))))"
    and ne: "round_estimates results totalRounds 0 0 \<noteq> []"
    using estimateOMW_played [of totalRounds results] by simp_all
  have "\<forall>x \<in> set ?es. 0.33 \<le> x \<and> x \<le> 1" using clamp_omw_range by auto
  moreover have "?es \<noteq> []" using ne by simp
  ultimately have "0.33 \<le> sum_list ?es / real (length ?es) \<and> sum_list ?es / real (length ?es) \<le> 1"
    by (rule mean_between [rotated])
  with eq show "\<exists>x. estimateOMW results totalRounds = Some (Fin x)
            \<and> 0.33 \<le> x \<and> x \<le> 1
            \<and> x = sum_list (map clamp_omw (round_estimates results totalRounds 0 0))
                    / real (length (round_estimates results totalRounds 0 0))"
    by simp
qed

theorem estimateOMW_null_or_mean_witness:
  "estimateOMW [None, None] 5 = None
   \<and> estimateOMW [] 5 = None
   \<and> estimateOMW [Some Win, Some Win, Some Loss, None, None] 5 = Some (Fin (176 / 300))
   \<and> round_estimates [Some Win, Some Win, Some Loss, None, None] 5 0 0 = [0.46, 0.56, 0.74]"
proof -
  have h1: "\<forall>c \<in> set [None, None :: cell]. c = None" by simp
  have h2: "(\<exists>c \<in> set [Some Win, Some Win, Some Loss, None, None]. c \<noteq> None) \<and> (5::int) \<noteq> 0"
    by simp
  have w: "round_estimates [Some Win, Some Win, Some Loss, None, None] 5 0 0 = [0.46, 0.56, 0.74]"
    by simp
  from estimateOMW_null_or_mean [of "[None, None]" 5] h1
  have a: "estimateOMW [None, None] 5 = None" by blast
  from estimateOMW_null_or_mean [of "[]" 5]
  have b: "estimateOMW [] 5 = None" by simp
  from estimateOMW_null_or_mean [of "[Some Win, Some Win, Some Loss, None, None]" 5] h2
  obtain x where "estimateOMW [Some Win, Some Win, Some Loss, None, None] 5 = Some (Fin x)"
    and "x = sum_list (map clamp_omw (round_estimates [Some Win, Some Win, Some Loss, None, None] 5 0 0))
              / real (length (round_estimates [Some Win, Some Win, Some Loss, None, None] 5 0 0))"
    by blast
  then have c: "estimateOMW [Some Win, Some Win, Some Loss, None, None] 5 = Some (Fin (176 / 300))"
    by (simp add: w clamp_omw_def)
  from a b c w show ?thesis by blast
qed




section \<open>Properties of the searches for the minimum number of wins\<close>

lemma first_from_min:
  "0 \<le> k \<Longrightarrow> (\<forall>w. 0 \<le> w \<and> w < k \<longrightarrow> \<not> enough w) \<Longrightarrow>
   is_min_wins enough r (first_from enough r k)"
proof (induction enough r k rule: first_from.induct)
  case (1 enough r k)
  show ?case
  proof (cases "k \<le> r")
    case False
    with 1(3) have "\<not> list_ex enough [0..r]" by (auto simp add: list_ex_iff)
    with False show ?thesis by (subst first_from.simps) (simp add: is_min_wins_def)
  next
    case True
    show ?thesis
    proof (cases "enough k")
      case yes: True
      with True 1(2) have "list_ex enough [0..r]" by (auto simp add: list_ex_iff)
      moreover have "list_all (\<lambda>w. \<not> enough w) [0..k - 1]"
        using 1(3) by (auto simp add: list_all_iff)
      ultimately show ?thesis using True yes 1(2)
        by (subst first_from.simps) (simp add: is_min_wins_def)
    next
      case no: False
      have "\<forall>w. 0 \<le> w \<and> w < k + 1 \<longrightarrow> \<not> enough w"
      proof (intro allI impI)
        fix w assume "0 \<le> w \<and> w < k + 1"
        then have "w < k \<or> w = k" by auto
        then show "\<not> enough w" using 1(3) no \<open>0 \<le> w \<and> w < k + 1\<close> by auto
      qed
      with 1(1) [OF True no] 1(2) have "is_min_wins enough r (first_from enough r (k + 1))"
        by simp
      with True no show ?thesis by (subst first_from.simps) simp
    qed
  qed
qed

lemma minWins_loop_first:
  "minWins_loop cw cl cd t n omw r k =
   first_from (\<lambda>w. 75 \<le> estimateTop8Probability (cw + w) cl (cd + (r - w)) t n omw) r k"
proof (induction cw cl cd t n omw r k rule: minWins_loop.induct)
  case (1 cw cl cd t n omw r k)
  show ?case
    by (subst minWins_loop.simps, subst first_from.simps) (use 1 in \<open>simp add: Let_def\<close>)
qed

lemma minWins_loop_script_first:
  "minWins_loop_script cw cl cd t n r k =
   first_from (\<lambda>w. 75 \<le> estimateTop8Probability_script (cw + w) cl (cd + (r - w)) t n) r k"
proof (induction cw cl cd t n r k rule: minWins_loop_script.induct)
  case (1 cw cl cd t n r k)
  show ?case
    by (subst minWins_loop_script.simps, subst first_from.simps) (use 1 in \<open>simp add: Let_def\<close>)
qed

lemma day2_loop_first:
  "day2_loop p t r k = first_from (\<lambda>w. t \<le> p + w * 3 + (r - w) * 1) r k"
proof (induction p t r k rule: day2_loop.induct)
  case (1 p t r k)
  show ?case
    by (subst day2_loop.simps, subst first_from.simps) (use 1 in \<open>simp add: Let_def\<close>)
qed

lemma is_min_wins_found:
  assumes "is_min_wins enough r m" and "0 \<le> v" and "v \<le> r" and "enough v"
  shows "0 \<le> m \<and> m \<le> v \<and> enough m \<and> (\<forall>w. 0 \<le> w \<and> w < m \<longrightarrow> \<not> enough w)"
proof -
  from assms(2-4) have "list_ex enough [0..r]" by (auto simp add: list_ex_iff)
  with assms(1) have m: "0 \<le> m" "m \<le> r" "enough m" "list_all (\<lambda>w. \<not> enough w) [0..m - 1]"
    by (simp_all add: is_min_wins_def)
  from m(4) have below: "\<forall>w. 0 \<le> w \<and> w < m \<longrightarrow> \<not> enough w" by (auto simp add: list_all_iff)
  with assms(2,4) have "m \<le> v" by (meson not_le)
  with m below show ?thesis by simp
qed

lemma is_min_wins_unique:
  assumes "is_min_wins enough r m" and "is_min_wins enough r m'"
  shows "m = m'"
proof (cases "list_ex enough [0..r]")
  case False
  with assms show ?thesis by (simp add: is_min_wins_def)
next
  case True
  with assms have a: "0 \<le> m" "m \<le> r" "enough m" and b: "0 \<le> m'" "m' \<le> r" "enough m'"
    by (simp_all add: is_min_wins_def)
  from is_min_wins_found [OF assms(1) b] is_min_wins_found [OF assms(2) a]
  show ?thesis by simp
qed

text \<open>
  C5. In the Day 2 calculator, when the player is not yet in (\<open>currentPoints < threshold\<close>)
  and not eliminated (\<open>currentPoints + remaining*3 \<ge> threshold\<close>), the search does not end
  with -1: it returns the smallest \<open>w\<close> from 0 to \<open>remaining\<close> with
  \<open>currentPoints + w*3 + (remaining - w)*1 \<ge> threshold\<close>. (The two conditions imply
  \<open>remaining \<ge> 0\<close>.)
\<close>

theorem day2_search_succeeds:
  assumes "getMatchPoints cw cd < threshold"
    and "threshold \<le> getMatchPoints cw cd + (totalRounds - (cw + cl + cd)) * 3"
  shows "let currentPoints = getMatchPoints cw cd;
             remaining = totalRounds - (cw + cl + cd);
             m = day2_minWinsNeeded totalRounds threshold cw cl cd
         in m \<noteq> -1 \<and> 0 \<le> m \<and> m \<le> remaining
            \<and> threshold \<le> currentPoints + m * 3 + (remaining - m) * 1
            \<and> (\<forall>w. 0 \<le> w \<and> w < m \<longrightarrow> currentPoints + w * 3 + (remaining - w) * 1 < threshold)"
proof -
  define p where "p = getMatchPoints cw cd"
  define r where "r = totalRounds - (cw + cl + cd)"
  define m where "m = day2_minWinsNeeded totalRounds threshold cw cl cd"
  let ?enough = "\<lambda>w. threshold \<le> p + w * 3 + (r - w) * 1"
  from assms have lt: "p < threshold" and ge: "threshold \<le> p + r * 3"
    by (simp_all add: p_def r_def)
  then have r0: "0 \<le> r" by simp
  have "m = first_from ?enough r 0"
    using lt by (simp add: m_def day2_minWinsNeeded_def Let_def p_def r_def day2_loop_first)
  then have "is_min_wins ?enough r m" by (simp add: first_from_min)
  from is_min_wins_found [OF this r0 _ ] ge
  have "0 \<le> m \<and> m \<le> r \<and> ?enough m \<and> (\<forall>w. 0 \<le> w \<and> w < m \<longrightarrow> \<not> ?enough w)" by simp
  then have "m \<noteq> -1 \<and> 0 \<le> m \<and> m \<le> r \<and> threshold \<le> p + m * 3 + (r - m) * 1
      \<and> (\<forall>w. 0 \<le> w \<and> w < m \<longrightarrow> p + w * 3 + (r - w) * 1 < threshold)"
    by (auto simp add: not_le)
  then show ?thesis unfolding Let_def p_def r_def m_def .
qed

theorem day2_search_succeeds_witness:
  "getMatchPoints 5 0 < 19 \<and> 19 \<le> getMatchPoints 5 0 + (9 - (5 + 1 + 0)) * 3
   \<and> day2_minWinsNeeded 9 19 5 1 0 \<noteq> -1
   \<and> day2_minWinsNeeded 9 19 5 1 0 = 1"
proof -
  have h1: "getMatchPoints 5 0 < 19" by (simp add: getMatchPoints_def)
  have h2: "19 \<le> getMatchPoints 5 0 + (9 - (5 + 1 + 0)) * 3" by (simp add: getMatchPoints_def)
  have ev: "day2_minWinsNeeded 9 19 5 1 0 = 1"
    by (simp add: day2_minWinsNeeded_def getMatchPoints_def day2_loop.simps)
  from day2_search_succeeds [OF h1 h2] have "day2_minWinsNeeded 9 19 5 1 0 \<noteq> -1"
    by (simp add: Let_def)
  with h1 h2 ev show ?thesis by simp
qed

lemma strategy_cascade:
  "\<exists>m. is_min_wins
          (\<lambda>w. 75 \<le> estimateTop8Probability (cw + w) cl
                        (cd + (totalRounds - (cw + cl + cd) - w)) totalRounds numPlayers
                        (estimateOMW roundResults totalRounds))
          (totalRounds - (cw + cl + cd)) m
     \<and> strategy numPlayers totalRounds cw cl cd roundResults =
         verdict_cascade
           (estimateTop8Probability cw cl (cd + (totalRounds - (cw + cl + cd)))
              totalRounds numPlayers (estimateOMW roundResults totalRounds))
           (estimateTop8Probability (cw + (totalRounds - (cw + cl + cd))) cl cd
              totalRounds numPlayers (estimateOMW roundResults totalRounds))
           m (totalRounds - (cw + cl + cd))"
  unfolding strategy_def Let_def verdict_cascade_def minWins_loop_first
  by (rule exI, rule conjI, rule first_from_min) simp_all

lemma strategy_script_cascade:
  "\<exists>m. is_min_wins
          (\<lambda>w. 75 \<le> estimateTop8Probability_script (cw + w) cl
                        (cd + (totalRounds - (cw + cl + cd) - w)) totalRounds numPlayers)
          (totalRounds - (cw + cl + cd)) m
     \<and> strategy_script numPlayers totalRounds cw cl cd =
         verdict_cascade
           (estimateTop8Probability_script cw cl (cd + (totalRounds - (cw + cl + cd)))
              totalRounds numPlayers)
           (estimateTop8Probability_script (cw + (totalRounds - (cw + cl + cd))) cl cd
              totalRounds numPlayers)
           m (totalRounds - (cw + cl + cd))"
  unfolding strategy_script_def Let_def verdict_cascade_def minWins_loop_script_first
  by (rule exI, rule conjI, rule first_from_min) simp_all

text \<open>
  C4. For an in-progress input that passes the checks of \<open>calculate\<close> (at least 8 players,
  at least one round played, at least one round remaining), the strategy verdict is the
  first-match cascade of the specification over the draw-all probability, the win-all
  probability and the minimum number of wins (the smallest \<open>w\<close> from 0 to \<open>remaining\<close>
  whose win-\<open>w\<close>-draw-the-rest probability is at least 75, else -1), all computed with the
  one OMW estimate of the tracker; likewise in script.js, which has no OMW estimate.
\<close>

theorem strategy_verdict_cascade:
  assumes "8 \<le> numPlayers" and "cw + cl + cd \<noteq> 0" and "1 \<le> totalRounds - (cw + cl + cd)"
  shows
   "let remaining = totalRounds - (cw + cl + cd);
        omw = estimateOMW roundResults totalRounds;
        drawAllProb = estimateTop8Probability cw cl (cd + remaining) totalRounds numPlayers omw;
        winAllProb = estimateTop8Probability (cw + remaining) cl cd totalRounds numPlayers omw;
        drawAllProb' = estimateTop8Probability_script cw cl (cd + remaining) totalRounds numPlayers;
        winAllProb' = estimateTop8Probability_script (cw + remaining) cl cd totalRounds numPlayers
    in (\<exists>m. is_min_wins
               (\<lambda>w. 75 \<le> estimateTop8Probability (cw + w) cl (cd + (remaining - w))
                             totalRounds numPlayers omw) remaining m
            \<and> calculate numPlayers totalRounds cw cl cd True roundResults =
                Inr (Some (verdict_cascade drawAllProb winAllProb m remaining)))
     \<and> (\<exists>m. is_min_wins
               (\<lambda>w. 75 \<le> estimateTop8Probability_script (cw + w) cl (cd + (remaining - w))
                             totalRounds numPlayers) remaining m
            \<and> calculate_script numPlayers totalRounds cw cl cd True =
                Inr (Some (verdict_cascade drawAllProb' winAllProb' m remaining)))"
proof -
  have c: "calculate numPlayers totalRounds cw cl cd True roundResults =
      Inr (Some (strategy numPlayers totalRounds cw cl cd roundResults))"
    using assms by (simp add: calculate_def Let_def)
  have c': "calculate_script numPlayers totalRounds cw cl cd True =
      Inr (Some (strategy_script numPlayers totalRounds cw cl cd))"
    using assms by (simp add: calculate_script_def Let_def)
  show ?thesis
    unfolding Let_def c c'
    using strategy_cascade [of cw cl cd totalRounds numPlayers roundResults]
      strategy_script_cascade [of cw cl cd totalRounds numPlayers]
    by simp
qed

theorem strategy_verdict_cascade_witness:
  "(8::int) \<le> 32 \<and> (3::int) + 1 + 0 \<noteq> 0 \<and> (1::int) \<le> 5 - (3 + 1 + 0)
   \<and> estimateOMW [Some Win, Some Win, Some Win, Some Loss, None] 5 = Some (Fin 0.63)
   \<and> estimateTop8Probability 3 1 (0 + 1) 5 32 (Some (Fin 0.63)) = 30
   \<and> estimateTop8Probability (3 + 1) 1 0 5 32 (Some (Fin 0.63)) = 85
   \<and> is_min_wins (\<lambda>w. 75 \<le> estimateTop8Probability (3 + w) 1 (0 + (1 - w)) 5 32
                               (Some (Fin 0.63))) 1 1
   \<and> calculate 32 5 3 1 0 True [Some Win, Some Win, Some Win, Some Loss, None] =
       Inr (Some (WinAtLeast 1))
   \<and> calculate_script 32 5 3 1 0 True = Inr (Some (WinAtLeast 1))"
proof -
  have h: "(8::int) \<le> 32" "(3::int) + 1 + 0 \<noteq> 0" "(1::int) \<le> 5 - (3 + 1 + 0)" by simp_all
  have omw: "estimateOMW [Some Win, Some Win, Some Win, Some Loss, None] 5 = Some (Fin 0.63)"
    by (simp add: estimateOMW_def js_div_int_def)
  have d: "estimateTop8Probability 3 1 (0 + 1) 5 32 (Some (Fin 0.63)) = 30"
    by (simp add: estimate_with_omw points_diff_def threshold_table_def banded_prob_def
        diff_table_def omw_adjustment_def)
  have w: "estimateTop8Probability (3 + 1) 1 0 5 32 (Some (Fin 0.63)) = 85"
    by (simp add: estimate_with_omw points_diff_def threshold_table_def banded_prob_def
        diff_table_def omw_adjustment_def)
  have m: "is_min_wins (\<lambda>w. 75 \<le> estimateTop8Probability (3 + w) 1 (0 + (1 - w)) 5 32
                               (Some (Fin 0.63))) 1 1"
    by (simp add: is_min_wins_def upto.simps estimate_with_omw points_diff_def
        threshold_table_def banded_prob_def diff_table_def omw_adjustment_def)
  have c: "calculate 32 5 3 1 0 True [Some Win, Some Win, Some Win, Some Loss, None] =
       Inr (Some (WinAtLeast 1))"
    by (simp add: calculate_def strategy_def omw minWins_loop.simps estimate_with_omw
        points_diff_def threshold_table_def banded_prob_def diff_table_def omw_adjustment_def)
  from strategy_verdict_cascade [OF h, of "[Some Win, Some Win, Some Win, Some Loss, None]"]
  obtain k where k: "is_min_wins
        (\<lambda>w. 75 \<le> estimateTop8Probability_script (3 + w) 1 (0 + (5 - (3 + 1 + 0) - w)) 5 32)
        (5 - (3 + 1 + 0)) k"
    and cs: "calculate_script 32 5 3 1 0 True =
       Inr (Some (verdict_cascade
         (estimateTop8Probability_script 3 1 (0 + (5 - (3 + 1 + 0))) 5 32)
         (estimateTop8Probability_script (3 + (5 - (3 + 1 + 0))) 1 0 5 32)
         k (5 - (3 + 1 + 0))))"
    unfolding Let_def by blast
  have "is_min_wins
        (\<lambda>w. 75 \<le> estimateTop8Probability_script (3 + w) 1 (0 + (5 - (3 + 1 + 0) - w)) 5 32)
        (5 - (3 + 1 + 0)) 1"
    by (simp add: is_min_wins_def upto.simps estimate_script_tables points_diff_def
        threshold_table_def diff_table_def)
  with k have "k = 1" by (rule is_min_wins_unique)
  with cs have c': "calculate_script 32 5 3 1 0 True = Inr (Some (WinAtLeast 1))"
    by (simp add: verdict_cascade_def estimate_script_tables points_diff_def
        threshold_table_def diff_table_def)
  from h omw d w m c c' show ?thesis by blast
qed


section \<open>Properties of the round tracker\<close>

lemma played_prefix_Cons:
  "played_prefix (c # cs) = (if c = None then (\<forall>x \<in> set cs. x = None) else played_prefix cs)"
  by (simp add: played_prefix_def list_all_iff)

lemma played_prefix_all_None: "\<forall>x \<in> set cs. x = None \<Longrightarrow> played_prefix cs"
  by (cases cs) (simp_all add: played_prefix_def list_all_iff)

lemma played_prefix_tail: "played_prefix (c # cs) \<Longrightarrow> played_prefix cs"
  by (cases "c = None") (simp_all add: played_prefix_Cons played_prefix_all_None)

lemma played_prefix_pad: "played_prefix xs \<Longrightarrow> played_prefix (xs @ replicate n None)"
proof (induction xs)
  case Nil
  show ?case by (rule played_prefix_all_None) simp
next
  case (Cons c cs)
  show ?case
  proof (cases "c = None")
    case True
    with Cons.prems have "\<forall>x \<in> set cs. x = None" by (simp add: played_prefix_Cons)
    with True show ?thesis by (auto simp add: played_prefix_Cons)
  next
    case False
    with Cons show ?thesis by (auto simp add: played_prefix_Cons)
  qed
qed

lemma played_prefix_take: "played_prefix xs \<Longrightarrow> played_prefix (take n xs)"
proof (induction xs arbitrary: n)
  case Nil
  then show ?case by simp
next
  case (Cons c cs)
  show ?case
  proof (cases n)
    case 0
    then show ?thesis by (simp add: played_prefix_def)
  next
    case (Suc m)
    show ?thesis
    proof (cases "c = None")
      case True
      with Cons.prems have "\<forall>x \<in> set cs. x = None" by (simp add: played_prefix_Cons)
      then have "\<forall>x \<in> set (take m cs). x = None" by (meson in_set_takeD)
      with True Suc show ?thesis by (auto simp add: played_prefix_Cons)
    next
      case False
      with Cons Suc show ?thesis by (auto simp add: played_prefix_Cons)
    qed
  qed
qed

text \<open>The predicate says what it should: some played results, then only \<open>null\<close>.\<close>

lemma played_prefix_shape:
  "played_prefix xs \<longleftrightarrow> (\<exists>ps n. xs = map Some ps @ replicate n None)"
proof
  show "played_prefix xs \<Longrightarrow> \<exists>ps n. xs = map Some ps @ replicate n None"
  proof (induction xs)
    case Nil
    show ?case by simp
  next
    case (Cons c cs)
    show ?case
    proof (cases c)
      case None
      with Cons.prems have "\<forall>x \<in> set cs. x = None" by (simp add: played_prefix_Cons)
      then have "cs = replicate (length cs) None" by (simp add: replicate_length_same)
      with None have "c # cs = map Some [] @ replicate (Suc (length cs)) None" by simp
      then show ?thesis by blast
    next
      case (Some r)
      with Cons obtain ps n where "cs = map Some ps @ replicate n None"
        by (auto simp add: played_prefix_Cons)
      with Some have "c # cs = map Some (r # ps) @ replicate n None" by simp
      then show ?thesis by blast
    qed
  qed
next
  assume "\<exists>ps n. xs = map Some ps @ replicate n None"
  then obtain ps n where xs: "xs = map Some ps @ replicate n None" by blast
  have "played_prefix (map Some ps)"
    by (induction ps) (simp_all add: played_prefix_Cons, simp add: played_prefix_def)
  then show "played_prefix xs" unfolding xs by (rule played_prefix_pad)
qed

lemma push_loop_closed:
  "push_loop n xs = xs @ replicate (n - length xs) None"
proof (induction n xs rule: push_loop.induct)
  case (1 n xs)
  show ?case
  proof (cases "length xs < n")
    case True
    then have "replicate (n - length xs) (None :: cell) = None # replicate (n - Suc (length xs)) None"
      by (simp add: Suc_diff_Suc flip: replicate_Suc)
    with True 1 show ?thesis by (subst push_loop.simps) simp
  next
    case False
    then show ?thesis by (subst push_loop.simps) simp
  qed
qed

lemma pop_loop_closed: "pop_loop n xs = take n xs"
proof (induction n xs rule: pop_loop.induct)
  case (1 n xs)
  show ?case
  proof (cases "length xs > n")
    case True
    with 1 show ?thesis by (subst pop_loop.simps) (simp add: butlast_conv_take)
  next
    case False
    then show ?thesis by (subst pop_loop.simps) simp
  qed
qed

lemma clear_loop_closed:
  "clear_loop i xs = take i xs @ replicate (length xs - i) None"
proof (induction i xs rule: clear_loop.induct)
  case (1 i xs)
  show ?case
  proof (cases "i < length xs")
    case True
    then have "take (Suc i) (xs[i := None]) = take i xs @ [None]"
      by (simp add: take_Suc_conv_app_nth)
    moreover from True have "replicate (length xs - i) (None :: cell)
        = None # replicate (length xs - Suc i) None"
      by (simp add: Suc_diff_Suc flip: replicate_Suc)
    ultimately show ?thesis using True 1 by (subst clear_loop.simps) simp
  next
    case False
    then show ?thesis by (subst clear_loop.simps) simp
  qed
qed

lemma played_prefix_build:
  "played_prefix xs \<Longrightarrow> played_prefix (buildRoundTracker players totalRounds xs)"
  by (simp add: buildRoundTracker_def push_loop_closed pop_loop_closed
      played_prefix_take played_prefix_pad)

lemma played_prefix_clear: "played_prefix xs \<Longrightarrow> played_prefix (clear_loop r xs)"
  unfolding clear_loop_closed by (intro played_prefix_pad played_prefix_take)

lemma played_prefix_set:
  "played_prefix xs \<Longrightarrow> r < length xs \<Longrightarrow> round_enabled r xs \<Longrightarrow>
   played_prefix (xs[r := Some v])"
proof (induction xs arbitrary: r)
  case Nil
  then show ?case by simp
next
  case (Cons c cs)
  show ?case
  proof (cases r)
    case 0
    with Cons.prems(1) show ?thesis
      by (simp add: played_prefix_Cons played_prefix_tail)
  next
    case (Suc k)
    with Cons.prems(2) have k: "k < length cs" by simp
    show ?thesis
    proof (cases "c = None")
      case True
      with Cons.prems(1) have allNone: "\<forall>x \<in> set cs. x = None"
        by (simp add: played_prefix_Cons)
      with k have "cs ! k = None" by simp
      moreover have "(c # cs) ! k = None"
      proof (cases k)
        case 0
        with True show ?thesis by simp
      next
        case (Suc k')
        with k allNone show ?thesis by simp
      qed
      ultimately have "\<not> round_enabled r (c # cs)" using Suc by (simp add: round_enabled_def)
      with Cons.prems(3) show ?thesis by simp
    next
      case False
      with Cons.prems(1) have pc: "played_prefix cs" by (simp add: played_prefix_Cons)
      have "round_enabled k cs"
      proof (cases k)
        case 0
        then show ?thesis by (simp add: round_enabled_def)
      next
        case (Suc k')
        with Cons.prems(3) \<open>r = Suc k\<close> show ?thesis by (simp add: round_enabled_def)
      qed
      with pc k have "played_prefix (cs[k := Some v])" by (rule Cons.IH)
      with False Suc show ?thesis by (auto simp add: played_prefix_Cons)
    qed
  qed
qed

text \<open>
  Clearing a round keeps the played prefix, whatever the round. Setting a result keeps it
  when the row is one that \<open>buildRoundTracker\<close> marks as enabled.
\<close>

lemma onRoundClear_keeps_prefix:
  "played_prefix roundResults \<Longrightarrow>
   played_prefix (onRoundClear players totalRounds r roundResults)"
  by (simp add: onRoundClear_def played_prefix_build played_prefix_clear)

lemma enabled_set_keeps_prefix:
  assumes "played_prefix roundResults" and "r < length roundResults"
    and "round_enabled r roundResults"
  shows "\<exists>ys. onRoundBtnClick players totalRounds r v roundResults = Some ys
              \<and> played_prefix ys"
proof -
  from assms have "played_prefix (roundResults[r := Some v])" by (simp add: played_prefix_set)
  then have "played_prefix (buildRoundTracker players totalRounds (roundResults[r := Some v]))"
    by (rule played_prefix_build)
  with assms(2) show ?thesis by (simp add: onRoundBtnClick_def)
qed

text \<open>
  C9. Every mutation of the tracker should leave the played results a contiguous prefix.
  The click handler of the round buttons does not: it assigns the cell of any row without
  testing whether the earlier rounds are filled. From three unplayed rounds of an
  8-player tournament, the W button of the third row gives an array with a played round
  after two unplayed ones.
\<close>

theorem set_round_leaves_gap:
  "played_prefix [None, None, None]
   \<and> onRoundBtnClick 8 3 2 Win [None, None, None] = Some [None, None, Some Win]
   \<and> \<not> played_prefix [None, None, Some Win]"
  by (simp add: played_prefix_def onRoundBtnClick_def buildRoundTracker_def
      push_loop.simps pop_loop.simps)

end
